theory Spec2Isabelle
  imports Main "HOL-Library.Multiset" "HOL-Library.Sublist"
begin

section \<open>Data exchanged over the port\<close>

text \<open>
  Values that travel in \<^verbatim>\<open>params\<close> and \<^verbatim>\<open>result\<close> (typed \<^verbatim>\<open>unknown\<close> in the
  source) are JSON values. The literal \<^verbatim>\<open>[]\<close> of the source is \<open>Arr []\<close>.
\<close>

datatype rpc_value =
    Null
  | Bool bool
  | Num int
  | Str string
  | Arr "rpc_value list"
  | Obj "(string \<times> rpc_value) list"

text \<open>
  The two keys of the table \<^verbatim>\<open>EIP1193_ERROR\<close> that the service reads. The table
  itself lives in the shared package; only the identity of the entry matters here.
\<close>

datatype EIP1193_ERROR = userRejectedRequest | unauthorized

text \<open>
  What \<^verbatim>\<open>response.result\<close> holds: a JSON value, or \<^verbatim>\<open>new EIP1193Error(e)\<close>.
\<close>

datatype response_result = Result rpc_value | EIP1193Error EIP1193_ERROR

text \<open>A value thrown by a collaborator (a rejected promise and its reason).\<close>

datatype error = Thrown rpc_value

text \<open>
  \<^verbatim>\<open>PermissionRequest\<close> is declared in the shared package; its fields are the four the
  handler writes when it builds one. The state is a string, \<^verbatim>\<open>"request"\<close> and
  \<^verbatim>\<open>"allow"\<close> being the two values the sources compare it with.
\<close>

record PermissionRequest =
  url :: string
  favIconUrl :: string
  title :: string
  state :: string

record RPCRequest =
  "method" :: string
  params :: "rpc_value list"

record PortRequestEvent =
  request_id :: string
  request :: RPCRequest

record PortResponseEvent =
  response_id :: string
  result :: response_result

text \<open>
  A connected port: \<^verbatim>\<open>port.sender.url\<close>, and \<^verbatim>\<open>port.sender.tab\<close> with its optional
  \<^verbatim>\<open>favIconUrl\<close> and \<^verbatim>\<open>title\<close>. The constructor attaches the message listener only
  to ports whose sender has a URL.
\<close>

record Tab =
  tab_favIconUrl :: "string option"
  tab_title :: "string option"

record Port =
  sender_url :: string
  sender_tab :: "Tab option"

section \<open>Collaborators\<close>

text \<open>
  \<^verbatim>\<open>browser.windows.getCurrent()\<close> yields a window whose \<^verbatim>\<open>left\<close>, \<^verbatim>\<open>top\<close> and
  \<^verbatim>\<open>width\<close> may be undefined; \<^verbatim>\<open>browser.windows.create\<close> takes the popup's data.
\<close>

record Window =
  win_left :: "int option"
  win_top :: "int option"
  win_width :: "int option"

record CreateData =
  create_url :: string
  create_type :: string
  create_left :: int
  create_top :: "int option"
  create_width :: int
  create_height :: int
  create_focused :: bool

text \<open>
  The collaborators a call of the service reaches: the internal provider's
  \<^verbatim>\<open>routeSafeRPCRequest\<close>, the browser's window and runtime API, and the constant
  \<^verbatim>\<open>ALLOWED_QUERY_PARAM_PAGE.dappConnect\<close> of the shared package. Each may throw
  (\<open>Inl\<close>) or return (\<open>Inr\<close>). An awaited collaborator call is modelled as returning
  its outcome at once; the only suspension that is modelled is the wait for the
  user's decision.
\<close>

record env =
  routeSafeRPCRequest :: "string \<Rightarrow> rpc_value list \<Rightarrow> error + rpc_value"
  windows_getCurrent :: "error + Window"
  windows_create :: "CreateData \<Rightarrow> error + Window"
  runtime_getURL :: "string \<Rightarrow> string"
  dappConnect :: string

section \<open>The service\<close>

text \<open>
  The value a consent promise is settled with: the granted permission, or the
  string of \<^verbatim>\<open>denyOrRevokePermission\<close>.
\<close>

datatype settled = Permission PermissionRequest | Text string

text \<open>
  \<open>allowedPages\<close> and \<open>pendingPermissionsRequests\<close> are the two private maps of
  the class; their keys are sender URLs, which never name a property that a
  JavaScript object inherits, so a lookup finds only what the service stored. A
  \<^verbatim>\<open>resolve\<close> function stored in the second map is identified by the number of the
  promise it settles. The other fields are
  the JavaScript runtime and the outputs: the number of consent promises created so
  far, the handlers suspended on a promise (each with the \<^verbatim>\<open>port\<close> and \<^verbatim>\<open>response\<close> of
  its closure), the queue of settled promises whose continuation has not run yet,
  the \<^verbatim>\<open>requestPermission\<close> events emitted and the messages posted on ports.
\<close>

record service =
  allowedPages :: "string \<rightharpoonup> PermissionRequest"
  pendingPermissionsRequests :: "string \<rightharpoonup> nat"
  promises :: nat
  awaiting :: "nat \<rightharpoonup> Port \<times> PortResponseEvent"
  microtasks :: "(nat \<times> settled) list"
  emitted :: "PermissionRequest list"
  posted :: "(Port \<times> PortResponseEvent) list"

definition initial :: service where
  "initial = \<lparr>allowedPages = Map.empty, pendingPermissionsRequests = Map.empty,
     promises = 0, awaiting = Map.empty, microtasks = [], emitted = [], posted = []\<rparr>"

text \<open>The state of the promise an \<^verbatim>\<open>async\<close> handler returns.\<close>

datatype completion = Fulfilled | Pending nat | Rejected error

definition checkPermission :: "service \<Rightarrow> string \<Rightarrow> bool" where
  "checkPermission s u =
     (case allowedPages s u of None \<Rightarrow> False | Some p \<Rightarrow> state p = ''allow'')"

definition routeContentScriptRPCRequest ::
    "env \<Rightarrow> string \<Rightarrow> rpc_value list \<Rightarrow> error + rpc_value" where
  "routeContentScriptRPCRequest e m ps =
     (if m = ''eth_requestAccounts'' then routeSafeRPCRequest e ''eth_accounts'' ps
      else routeSafeRPCRequest e m ps)"

definition showDappConnectWindow :: "env \<Rightarrow> string \<Rightarrow> error + Window" where
  "showDappConnectWindow e page =
     (case windows_getCurrent e of
        Inl err \<Rightarrow> Inl err
      | Inr cur \<Rightarrow>
          (let left = (case win_left cur of None \<Rightarrow> 0 | Some l \<Rightarrow> l);
               top = win_top cur;
               width = (case win_width cur of None \<Rightarrow> 1920 | Some w \<Rightarrow> w);
               popupWidth = 384;
               popupHeight = 558
           in windows_create e
                \<lparr>create_url = runtime_getURL e ''popup.html'' @ ''?page='' @ page,
                 create_type = ''popup'',
                 create_left = left + width - popupWidth,
                 create_top = top,
                 create_width = popupWidth,
                 create_height = popupHeight,
                 create_focused = True\<rparr>))"

definition emit_requestPermission :: "PermissionRequest \<Rightarrow> service \<Rightarrow> service" where
  "emit_requestPermission p s = s\<lparr>emitted := emitted s @ [p]\<rparr>"

text \<open>
  \<^verbatim>\<open>requestPermission\<close>: emit, open the window, then create a promise and store its
  \<^verbatim>\<open>resolve\<close> under the URL. The result is the new promise, or what the window API
  threw (the event has been emitted by then).
\<close>

definition requestPermission ::
    "env \<Rightarrow> PermissionRequest \<Rightarrow> service \<Rightarrow> (error + nat) \<times> service" where
  "requestPermission e permissionRequest s =
     (let s1 = emit_requestPermission permissionRequest s
      in case showDappConnectWindow e (dappConnect e) of
           Inl err \<Rightarrow> (Inl err, s1)
         | Inr w \<Rightarrow>
             (let k = promises s1
              in (Inr k,
                  s1\<lparr>promises := Suc k,
                     pendingPermissionsRequests :=
                       (pendingPermissionsRequests s1)(url permissionRequest \<mapsto> k)\<rparr>)))"

text \<open>Calling a stored \<^verbatim>\<open>resolve\<close>: the continuation is queued, not run.\<close>

definition resolve :: "nat \<Rightarrow> settled \<Rightarrow> service \<Rightarrow> service" where
  "resolve k v s = s\<lparr>microtasks := microtasks s @ [(k, v)]\<rparr>"

definition grantPermission :: "PermissionRequest \<Rightarrow> service \<Rightarrow> service" where
  "grantPermission permission s =
     (case pendingPermissionsRequests s (url permission) of
        None \<Rightarrow> s
      | Some r \<Rightarrow>
          (let s1 = s\<lparr>allowedPages := (allowedPages s)(url permission \<mapsto> permission)\<rparr>;
               s2 = resolve r (Permission permission) s1
           in s2\<lparr>pendingPermissionsRequests :=
                    (pendingPermissionsRequests s2)(url permission := None)\<rparr>))"

definition denyOrRevokePermission :: "PermissionRequest \<Rightarrow> service \<Rightarrow> service" where
  "denyOrRevokePermission permission s =
     (case pendingPermissionsRequests s (url permission) of
        None \<Rightarrow> s
      | Some r \<Rightarrow>
          (let s1 = s\<lparr>allowedPages := (allowedPages s)(url permission := None)\<rparr>;
               s2 = resolve r (Text ''Time to move on'') s1
           in s2\<lparr>pendingPermissionsRequests :=
                    (pendingPermissionsRequests s2)(url permission := None)\<rparr>))"

text \<open>\<^verbatim>\<open>port.postMessage\<close>: the message is appended to the log of posted messages.\<close>

definition postMessage :: "Port \<Rightarrow> PortResponseEvent \<Rightarrow> service \<Rightarrow> service" where
  "postMessage port response s = s\<lparr>posted := posted s @ [(port, response)]\<rparr>"

text \<open>
  The rest of \<^verbatim>\<open>onMessageListener\<close> after \<^verbatim>\<open>await blockUntilUserAction\<close>: the second
  permission check, and the post.
\<close>

definition onMessageListener_resumed ::
    "Port \<Rightarrow> PortResponseEvent \<Rightarrow> service \<Rightarrow> service" where
  "onMessageListener_resumed port response s =
     (let u = sender_url port;
          response' = (if \<not> checkPermission s u
                       then response\<lparr>result := EIP1193Error userRejectedRequest\<rparr>
                       else response)
      in postMessage port response' s)"

text \<open>
  \<^verbatim>\<open>port.sender.tab?.favIconUrl ?? ""\<close> and \<^verbatim>\<open>port.sender.tab?.title ?? ""\<close>, then
  \<^verbatim>\<open>onMessageListener\<close> up to its post, its suspension or the error that ends it.
\<close>

definition sender_favIconUrl :: "Port \<Rightarrow> string" where
  "sender_favIconUrl port =
     (case sender_tab port of None \<Rightarrow> ''''
      | Some t \<Rightarrow> (case tab_favIconUrl t of None \<Rightarrow> '''' | Some f \<Rightarrow> f))"

definition sender_title :: "Port \<Rightarrow> string" where
  "sender_title port =
     (case sender_tab port of None \<Rightarrow> ''''
      | Some t \<Rightarrow> (case tab_title t of None \<Rightarrow> '''' | Some f \<Rightarrow> f))"

definition onMessageListener ::
    "env \<Rightarrow> Port \<Rightarrow> PortRequestEvent \<Rightarrow> service \<Rightarrow> completion \<times> service" where
  "onMessageListener e port event s =
     (let u = sender_url port;
          fav = sender_favIconUrl port;
          ttl = sender_title port;
          response = \<lparr>response_id = request_id event, result = Result (Arr [])\<rparr>
      in if checkPermission s u then
           (case routeContentScriptRPCRequest e (method (request event))
                   (params (request event)) of
              Inl err \<Rightarrow> (Rejected err, s)
            | Inr r \<Rightarrow> (Fulfilled, postMessage port (response\<lparr>result := Result r\<rparr>) s))
         else if method (request event) = ''eth_requestAccounts'' then
           (let permissionRequest =
                  \<lparr>url = u, favIconUrl = fav, title = ttl, state = ''request''\<rparr>
            in case requestPermission e permissionRequest s of
                 (Inl err, s') \<Rightarrow> (Rejected err, s')
               | (Inr k, s') \<Rightarrow>
                   (Pending k, s'\<lparr>awaiting := (awaiting s')(k \<mapsto> (port, response))\<rparr>))
         else
           (Fulfilled,
            postMessage port (response\<lparr>result := EIP1193Error unauthorized\<rparr>) s))"

subsection \<open>Running the service\<close>

text \<open>
  The continuation of a settled promise: the handler suspended on it, if any, runs
  to its end. The settled value is what \<^verbatim>\<open>blockUntilUserAction\<close> is bound to; the
  handler does not read it.
\<close>

definition resume :: "nat \<times> settled \<Rightarrow> service \<Rightarrow> service" where
  "resume kv s =
     (case awaiting s (fst kv) of
        None \<Rightarrow> s
      | Some (port, response) \<Rightarrow>
          onMessageListener_resumed port response
            (s\<lparr>awaiting := (awaiting s)(fst kv := None)\<rparr>))"

definition run_microtasks :: "service \<Rightarrow> service" where
  "run_microtasks s = fold resume (microtasks s) (s\<lparr>microtasks := []\<rparr>)"

text \<open>
  What reaches the service from outside: a message on a port (with the behaviour
  of the collaborators at that time), and the two calls of the consent surface.
\<close>

datatype action =
    Message env Port PortRequestEvent
  | Grant PermissionRequest
  | Deny PermissionRequest

fun perform :: "action \<Rightarrow> service \<Rightarrow> service" where
  "perform (Message e port event) s = snd (onMessageListener e port event s)"
| "perform (Grant permission) s = grantPermission permission s"
| "perform (Deny permission) s = denyOrRevokePermission permission s"

text \<open>One task of the event loop: the call, then the queued continuations.\<close>

definition task :: "action \<Rightarrow> service \<Rightarrow> service" where
  "task a s = run_microtasks (perform a s)"

fun run :: "action list \<Rightarrow> service \<Rightarrow> service" where
  "run [] s = s"
| "run (a # as) s = run as (task a s)"

section \<open>The selectors of the permission slice\<close>

text \<open>
  The slice's \<^verbatim>\<open>permissionRequests\<close> object, as its own properties in enumeration
  order; \<^verbatim>\<open>Object.values\<close> lists the values in that order. The slice's type is
  declared outside the sources; the selectors read this one field of it.
\<close>

record DAppPermissionState =
  permissionRequests :: "(string \<times> PermissionRequest) list"

record RootState =
  dappPermission :: DAppPermissionState

definition getProviderBridgeState :: "RootState \<Rightarrow> DAppPermissionState" where
  "getProviderBridgeState st = dappPermission st"

definition selectPermissionRequests :: "RootState \<Rightarrow> PermissionRequest list" where
  "selectPermissionRequests st = map snd (permissionRequests (getProviderBridgeState st))"

definition selectPendingPermissionRequests :: "RootState \<Rightarrow> PermissionRequest list" where
  "selectPendingPermissionRequests st =
     filter (\<lambda>p. state p = ''request'') (selectPermissionRequests st)"

text \<open>Reading index 0 of an empty array gives \<^verbatim>\<open>undefined\<close>, here \<open>None\<close>.\<close>

definition selectCurrentPendingPermission :: "RootState \<Rightarrow> PermissionRequest option" where
  "selectCurrentPendingPermission st =
     (case selectPendingPermissionRequests st of [] \<Rightarrow> None | p # _ \<Rightarrow> Some p)"

section \<open>Invariants of the running service\<close>

text \<open>
  Between two tasks the queue of continuations is empty, every \<^verbatim>\<open>resolve\<close> stored in
  the registry belongs to a promise that has been created, and no two URLs hold the
  \<^verbatim>\<open>resolve\<close> of the same promise.
\<close>

definition well_formed :: "service \<Rightarrow> bool" where
  "well_formed s \<longleftrightarrow>
     microtasks s = [] \<and>
     (\<forall>u k. pendingPermissionsRequests s u = Some k \<longrightarrow> k < promises s) \<and>
     (\<forall>u u' k. pendingPermissionsRequests s u = Some k \<longrightarrow>
        pendingPermissionsRequests s u' = Some k \<longrightarrow> u = u')"

text \<open>An action is a decision for a URL when it grants or denies that URL.\<close>

fun decision_for :: "string \<Rightarrow> action \<Rightarrow> bool" where
  "decision_for u (Grant permission) = (url permission = u)"
| "decision_for u (Deny permission) = (url permission = u)"
| "decision_for u (Message e port event) = False"

text \<open>
  Promise \<open>k\<close> exists, nothing is queued, and its \<^verbatim>\<open>resolve\<close> is stored under no URL
  outside \<open>U\<close>.
\<close>

definition held_by :: "nat \<Rightarrow> string set \<Rightarrow> service \<Rightarrow> bool" where
  "held_by k U s \<longleftrightarrow>
     microtasks s = [] \<and> k < promises s \<and>
     (\<forall>u. pendingPermissionsRequests s u = Some k \<longrightarrow> u \<in> U)"

section \<open>Example inputs\<close>

definition dapp_port :: Port where
  "dapp_port = \<lparr>sender_url = ''https://dapp.example'',
     sender_tab = Some \<lparr>tab_favIconUrl = None, tab_title = Some ''Dapp''\<rparr>\<rparr>"

definition connect_event :: PortRequestEvent where
  "connect_event =
     \<lparr>request_id = ''1'', request = \<lparr>method = ''eth_requestAccounts'', params = []\<rparr>\<rparr>"

definition sign_event :: PortRequestEvent where
  "sign_event =
     \<lparr>request_id = ''2'',
      request = \<lparr>method = ''personal_sign'', params = [Str ''0x00'']\<rparr>\<rparr>"

definition allow_record :: PermissionRequest where
  "allow_record = \<lparr>url = ''https://dapp.example'', favIconUrl = [],
     title = ''Dapp'', state = ''allow''\<rparr>"

definition deny_record :: PermissionRequest where
  "deny_record = \<lparr>url = ''https://dapp.example'', favIconUrl = [],
     title = ''Dapp'', state = ''deny''\<rparr>"

text \<open>
  A provider that knows one account and throws on every method but \<^verbatim>\<open>eth_accounts\<close>,
  and a browser whose window calls succeed.
\<close>

definition wallet_env :: env where
  "wallet_env =
     \<lparr>routeSafeRPCRequest =
        (\<lambda>m ps. if m = ''eth_accounts'' then Inr (Arr [Str ''0xd8da''])
                 else Inl (Thrown (Str ''unsupported''))),
      windows_getCurrent = Inr \<lparr>win_left = Some 0, win_top = Some 0, win_width = None\<rparr>,
      windows_create =
        (\<lambda>d. Inr \<lparr>win_left = Some (create_left d), win_top = create_top d,
                   win_width = Some (create_width d)\<rparr>),
      runtime_getURL = (\<lambda>path. ''ext://'' @ path),
      dappConnect = ''dapp''\<rparr>"

text \<open>The same collaborators, with a browser that refuses to create the window.\<close>

definition windowless_env :: env where
  "windowless_env =
     wallet_env\<lparr>windows_create := (\<lambda>d. Inl (Thrown (Str ''no window'')))\<rparr>"

text \<open>A second connection request, and a call the example provider does not know.\<close>

definition reconnect_event :: PortRequestEvent where
  "reconnect_event =
     \<lparr>request_id = ''3'', request = \<lparr>method = ''eth_requestAccounts'', params = []\<rparr>\<rparr>"

definition call_event :: PortRequestEvent where
  "call_event = \<lparr>request_id = ''4'', request = \<lparr>method = ''eth_call'', params = []\<rparr>\<rparr>"

text \<open>The service after the example origin has asked to connect, and after the grant.\<close>

definition asked :: service where
  "asked = run [Message wallet_env dapp_port connect_event] initial"

definition connected :: service where
  "connected = run [Message wallet_env dapp_port connect_event, Grant allow_record] initial"

text \<open>Two states of the permission slice: one with two open requests, one with none.\<close>

definition example_root :: RootState where
  "example_root =
     \<lparr>dappPermission = \<lparr>permissionRequests =
        [(''https://a.example'', \<lparr>url = ''https://a.example'', favIconUrl = [], title = ''A'',
            state = ''allow''\<rparr>),
         (''https://b.example'', \<lparr>url = ''https://b.example'', favIconUrl = [], title = ''B'',
            state = ''request''\<rparr>),
         (''https://c.example'', \<lparr>url = ''https://c.example'', favIconUrl = [], title = ''C'',
            state = ''request''\<rparr>)]\<rparr>\<rparr>"

definition settled_root :: RootState where
  "settled_root =
     \<lparr>dappPermission = \<lparr>permissionRequests =
        [(''https://a.example'', \<lparr>url = ''https://a.example'', favIconUrl = [], title = ''A'',
            state = ''allow''\<rparr>)]\<rparr>\<rparr>"

section \<open>Steps of the handler and of the event loop\<close>

lemma onMessageListener_authorised:
  "checkPermission s (sender_url port) \<Longrightarrow>
   onMessageListener e port event s =
     (case routeContentScriptRPCRequest e (method (request event)) (params (request event)) of
        Inl err \<Rightarrow> (Rejected err, s)
      | Inr r \<Rightarrow> (Fulfilled,
          s\<lparr>posted := posted s @ [(port, \<lparr>response_id = request_id event, result = Result r\<rparr>)]\<rparr>))"
  by (simp add: onMessageListener_def postMessage_def Let_def split: sum.splits)

lemma onMessageListener_unauthorised:
  "\<not> checkPermission s (sender_url port) \<Longrightarrow>
   method (request event) \<noteq> ''eth_requestAccounts'' \<Longrightarrow>
   onMessageListener e port event s =
     (Fulfilled,
      s\<lparr>posted := posted s @
         [(port, \<lparr>response_id = request_id event, result = EIP1193Error unauthorized\<rparr>)]\<rparr>)"
  by (simp add: onMessageListener_def postMessage_def Let_def)

lemma onMessageListener_connect:
  "\<not> checkPermission s (sender_url port) \<Longrightarrow>
   method (request event) = ''eth_requestAccounts'' \<Longrightarrow>
   showDappConnectWindow e (dappConnect e) = Inr w \<Longrightarrow>
   onMessageListener e port event s =
     (Pending (promises s),
      s\<lparr>emitted := emitted s @
           [\<lparr>url = sender_url port, favIconUrl = sender_favIconUrl port,
             title = sender_title port, state = ''request''\<rparr>],
         promises := Suc (promises s),
         pendingPermissionsRequests :=
           (pendingPermissionsRequests s)(sender_url port \<mapsto> promises s),
         awaiting := (awaiting s)(promises s \<mapsto>
           (port, \<lparr>response_id = request_id event, result = Result (Arr [])\<rparr>))\<rparr>)"
  by (simp add: onMessageListener_def requestPermission_def emit_requestPermission_def Let_def)

lemma onMessageListener_connect_fails:
  "\<not> checkPermission s (sender_url port) \<Longrightarrow>
   method (request event) = ''eth_requestAccounts'' \<Longrightarrow>
   showDappConnectWindow e (dappConnect e) = Inl err \<Longrightarrow>
   onMessageListener e port event s =
     (Rejected err,
      s\<lparr>emitted := emitted s @
           [\<lparr>url = sender_url port, favIconUrl = sender_favIconUrl port,
             title = sender_title port, state = ''request''\<rparr>]\<rparr>)"
  by (simp add: onMessageListener_def requestPermission_def emit_requestPermission_def Let_def)

lemma grantPermission_pending:
  "pendingPermissionsRequests s (url p) = Some k \<Longrightarrow>
   grantPermission p s =
     s\<lparr>allowedPages := (allowedPages s)(url p \<mapsto> p),
       microtasks := microtasks s @ [(k, Permission p)],
       pendingPermissionsRequests := (pendingPermissionsRequests s)(url p := None)\<rparr>"
  by (simp add: grantPermission_def resolve_def Let_def)

lemma grantPermission_absent:
  "pendingPermissionsRequests s (url p) = None \<Longrightarrow> grantPermission p s = s"
  by (simp add: grantPermission_def)

lemma denyOrRevokePermission_pending:
  "pendingPermissionsRequests s (url p) = Some k \<Longrightarrow>
   denyOrRevokePermission p s =
     s\<lparr>allowedPages := (allowedPages s)(url p := None),
       microtasks := microtasks s @ [(k, Text ''Time to move on'')],
       pendingPermissionsRequests := (pendingPermissionsRequests s)(url p := None)\<rparr>"
  by (simp add: denyOrRevokePermission_def resolve_def Let_def)

lemma denyOrRevokePermission_absent:
  "pendingPermissionsRequests s (url p) = None \<Longrightarrow> denyOrRevokePermission p s = s"
  by (simp add: denyOrRevokePermission_def)

lemma resume_suspended:
  "awaiting s k = Some (port, response) \<Longrightarrow>
   resume (k, v) s =
     s\<lparr>awaiting := (awaiting s)(k := None),
       posted := posted s @
         [(port, if checkPermission s (sender_url port) then response
                 else response\<lparr>result := EIP1193Error userRejectedRequest\<rparr>)]\<rparr>"
  by (simp add: resume_def onMessageListener_resumed_def postMessage_def checkPermission_def Let_def)

lemma resume_absent: "awaiting s k = None \<Longrightarrow> resume (k, v) s = s"
  by (simp add: resume_def)


lemma run_microtasks_empty: "microtasks s = [] \<Longrightarrow> run_microtasks s = s"
  by (simp add: run_microtasks_def)

lemma microtasks_onMessageListener:
  "microtasks (snd (onMessageListener e port event s)) = microtasks s"
  by (simp add: onMessageListener_def requestPermission_def emit_requestPermission_def
      postMessage_def Let_def split: sum.splits prod.splits)

lemma task_Message:
  "microtasks s = [] \<Longrightarrow> task (Message e port event) s = snd (onMessageListener e port event s)"
  by (simp add: task_def run_microtasks_empty microtasks_onMessageListener)

lemma task_Grant:
  "microtasks s = [] \<Longrightarrow>
   task (Grant p) s =
     (case pendingPermissionsRequests s (url p) of
        None \<Rightarrow> s
      | Some k \<Rightarrow>
          resume (k, Permission p)
            (s\<lparr>allowedPages := (allowedPages s)(url p \<mapsto> p),
               pendingPermissionsRequests := (pendingPermissionsRequests s)(url p := None)\<rparr>))"
  by (cases s)
    (simp add: task_def run_microtasks_def grantPermission_def resolve_def Let_def
      split: option.splits)

lemma task_Deny:
  "microtasks s = [] \<Longrightarrow>
   task (Deny p) s =
     (case pendingPermissionsRequests s (url p) of
        None \<Rightarrow> s
      | Some k \<Rightarrow>
          resume (k, Text ''Time to move on'')
            (s\<lparr>allowedPages := (allowedPages s)(url p := None),
               pendingPermissionsRequests := (pendingPermissionsRequests s)(url p := None)\<rparr>))"
  by (cases s)
    (simp add: task_def run_microtasks_def denyOrRevokePermission_def resolve_def Let_def
      split: option.splits)

lemma resume_fields:
  "microtasks (resume kv s) = microtasks s"
  "promises (resume kv s) = promises s"
  "pendingPermissionsRequests (resume kv s) = pendingPermissionsRequests s"
  "allowedPages (resume kv s) = allowedPages s"
  "emitted (resume kv s) = emitted s"
  by (simp_all add: resume_def onMessageListener_resumed_def postMessage_def Let_def
      split: option.splits prod.splits)

lemma awaiting_resume: "k \<noteq> fst kv \<Longrightarrow> awaiting (resume kv s) k = awaiting s k"
  by (simp add: resume_def onMessageListener_resumed_def postMessage_def Let_def
      split: option.splits prod.splits)

lemma onMessageListener_fields:
  "allowedPages (snd (onMessageListener e port event s)) = allowedPages s"
  "promises s \<le> promises (snd (onMessageListener e port event s))"
  by (simp_all add: onMessageListener_def requestPermission_def emit_requestPermission_def
      postMessage_def Let_def split: sum.splits prod.splits)

lemma pending_onMessageListener:
  "pendingPermissionsRequests (snd (onMessageListener e port event s)) u = Some k \<Longrightarrow>
   pendingPermissionsRequests s u = Some k \<or>
   (k = promises s \<and> u = sender_url port \<and> promises (snd (onMessageListener e port event s)) = Suc k)"
  by (auto simp add: onMessageListener_def requestPermission_def emit_requestPermission_def
      postMessage_def Let_def split: sum.splits prod.splits if_splits)

lemma awaiting_onMessageListener:
  "k < promises s \<Longrightarrow> awaiting (snd (onMessageListener e port event s)) k = awaiting s k"
  by (auto simp add: onMessageListener_def requestPermission_def emit_requestPermission_def
      postMessage_def Let_def split: sum.splits prod.splits if_splits)

lemma held_by_task:
  assumes "held_by k U s" and nd: "\<forall>u\<in>U. \<not> decision_for u a"
  shows "held_by k U (task a s) \<and> awaiting (task a s) k = awaiting s k"
proof (cases a)
  case (Message e port event)
  have m: "microtasks s = []" and lt: "k < promises s"
    and un: "\<And>u. pendingPermissionsRequests s u = Some k \<Longrightarrow> u \<in> U"
    using assms by (auto simp: held_by_def)
  let ?s' = "snd (onMessageListener e port event s)"
  have t: "task a s = ?s'" using Message m by (simp add: task_Message)
  have "microtasks ?s' = []" using m by (simp add: microtasks_onMessageListener)
  moreover have "k < promises ?s'"
    using lt onMessageListener_fields(2)[of s e port event] by simp
  moreover have "u \<in> U" if "pendingPermissionsRequests ?s' u = Some k" for u
    using pending_onMessageListener[OF that] un lt by auto
  moreover have "awaiting ?s' k = awaiting s k"
    using lt by (rule awaiting_onMessageListener)
  ultimately show ?thesis by (simp add: t held_by_def)
next
  case (Grant p)
  have m: "microtasks s = []" using assms by (simp add: held_by_def)
  have out: "url p \<notin> U" using nd Grant by auto
  show ?thesis
  proof (cases "pendingPermissionsRequests s (url p)")
    case None
    then show ?thesis using assms by (simp add: Grant task_Grant[OF m])
  next
    case (Some k')
    then have "k \<noteq> k'" using assms out by (auto simp: held_by_def)
    then show ?thesis
      using assms Some
      by (simp add: Grant task_Grant[OF m] held_by_def resume_fields awaiting_resume)
  qed
next
  case (Deny p)
  have m: "microtasks s = []" using assms by (simp add: held_by_def)
  have out: "url p \<notin> U" using nd Deny by auto
  show ?thesis
  proof (cases "pendingPermissionsRequests s (url p)")
    case None
    then show ?thesis using assms by (simp add: Deny task_Deny[OF m])
  next
    case (Some k')
    then have "k \<noteq> k'" using assms out by (auto simp: held_by_def)
    then show ?thesis
      using assms Some
      by (simp add: Deny task_Deny[OF m] held_by_def resume_fields awaiting_resume)
  qed
qed

lemma held_by_run:
  "held_by k U s \<Longrightarrow> \<forall>a\<in>set as. \<forall>u\<in>U. \<not> decision_for u a \<Longrightarrow>
   held_by k U (run as s) \<and> awaiting (run as s) k = awaiting s k"
proof (induction as arbitrary: s)
  case Nil
  then show ?case by simp
next
  case (Cons a as)
  have "\<forall>u\<in>U. \<not> decision_for u a" using Cons.prems(2) by simp
  from held_by_task[OF Cons.prems(1) this]
  have o: "held_by k U (task a s)" and aw: "awaiting (task a s) k = awaiting s k"
    by simp_all
  have "\<forall>a\<in>set as. \<forall>u\<in>U. \<not> decision_for u a" using Cons.prems(2) by simp
  from Cons.IH[OF o this] aw show ?case by simp
qed

lemma well_formed_initial: "well_formed initial"
  by (simp add: well_formed_def initial_def)

lemma well_formed_task:
  assumes "well_formed s"
  shows "well_formed (task a s)"
proof (cases a)
  case (Message e port event)
  have m: "microtasks s = []"
    and lt: "\<And>u k. pendingPermissionsRequests s u = Some k \<Longrightarrow> k < promises s"
    and inj: "\<And>u u' k. pendingPermissionsRequests s u = Some k \<Longrightarrow>
        pendingPermissionsRequests s u' = Some k \<Longrightarrow> u = u'"
    using assms by (auto simp: well_formed_def)
  let ?s' = "snd (onMessageListener e port event s)"
  have t: "task a s = ?s'" using Message m by (simp add: task_Message)
  have 1: "microtasks ?s' = []" using m by (simp add: microtasks_onMessageListener)
  have 2: "k < promises ?s'" if "pendingPermissionsRequests ?s' u = Some k" for u k
    using pending_onMessageListener[OF that] lt[of u k]
      onMessageListener_fields(2)[of s e port event] by auto
  have 3: "u = u'" if "pendingPermissionsRequests ?s' u = Some k"
      "pendingPermissionsRequests ?s' u' = Some k" for u u' k
    using pending_onMessageListener[OF that(1)] pending_onMessageListener[OF that(2)]
      lt[of u k] lt[of u' k] inj[of u k u'] by auto
  show ?thesis unfolding t well_formed_def using 1 2 3 by blast
next
  case (Grant p)
  have m: "microtasks s = []" using assms by (simp add: well_formed_def)
  show ?thesis
    using assms
    by (auto simp add: Grant task_Grant[OF m] well_formed_def resume_fields
        split: option.splits if_splits)
next
  case (Deny p)
  have m: "microtasks s = []" using assms by (simp add: well_formed_def)
  show ?thesis
    using assms
    by (auto simp add: Deny task_Deny[OF m] well_formed_def resume_fields
        split: option.splits if_splits)
qed

lemma well_formed_run: "well_formed s \<Longrightarrow> well_formed (run as s)"
  by (induction as arbitrary: s) (simp_all add: well_formed_task)

text \<open>Every state the service reaches from its initial state is well formed.\<close>

lemma well_formed_reachable: "well_formed (run as initial)"
  by (rule well_formed_run[OF well_formed_initial])

subsection \<open>The example run\<close>

lemma window_example:
  "showDappConnectWindow wallet_env (dappConnect wallet_env) =
     Inr \<lparr>win_left = Some 1536, win_top = Some 0, win_width = Some 384\<rparr>"
  by (simp add: showDappConnectWindow_def wallet_env_def)

lemma window_refused:
  "showDappConnectWindow windowless_env (dappConnect windowless_env) =
     Inl (Thrown (Str ''no window''))"
  by (simp add: showDappConnectWindow_def windowless_env_def wallet_env_def)

lemma asked_state:
  "asked =
     \<lparr>allowedPages = Map.empty,
      pendingPermissionsRequests = [''https://dapp.example'' \<mapsto> 0],
      promises = 1,
      awaiting = [0 \<mapsto> (dapp_port, \<lparr>response_id = ''1'', result = Result (Arr [])\<rparr>)],
      microtasks = [],
      emitted = [\<lparr>url = ''https://dapp.example'', favIconUrl = [], title = ''Dapp'',
                  state = ''request''\<rparr>],
      posted = []\<rparr>"
  (is "_ = ?thesis_rhs")
proof -
  have c: "\<not> checkPermission initial (sender_url dapp_port)"
    by (simp add: checkPermission_def initial_def)
  have m: "method (request connect_event) = ''eth_requestAccounts''"
    by (simp add: connect_event_def)
  have mi: "microtasks initial = []" by (simp add: initial_def)
  have "asked = snd (onMessageListener wallet_env dapp_port connect_event initial)"
    by (simp add: asked_def task_Message[OF mi])
  also have "\<dots> = ?thesis_rhs"
    by (simp add: onMessageListener_connect[OF c m window_example])
      (simp add: initial_def dapp_port_def connect_event_def sender_favIconUrl_def
        sender_title_def)
  finally show ?thesis .
qed

lemma connected_state:
  "connected =
     \<lparr>allowedPages = [''https://dapp.example'' \<mapsto> allow_record],
      pendingPermissionsRequests = Map.empty,
      promises = 1,
      awaiting = Map.empty,
      microtasks = [],
      emitted = [\<lparr>url = ''https://dapp.example'', favIconUrl = [], title = ''Dapp'',
                  state = ''request''\<rparr>],
      posted = [(dapp_port, \<lparr>response_id = ''1'', result = Result (Arr [])\<rparr>)]\<rparr>"
  (is "_ = ?rhs")
proof -
  have "connected = task (Grant allow_record) asked"
    by (simp add: connected_def asked_def)
  also have "\<dots> = resume (0, Permission allow_record)
      (asked\<lparr>allowedPages := (allowedPages asked)(url allow_record \<mapsto> allow_record),
         pendingPermissionsRequests := (pendingPermissionsRequests asked)(url allow_record := None)\<rparr>)"
    by (subst task_Grant) (simp_all add: asked_state allow_record_def)
  also have "\<dots> = ?rhs" 
    by (subst resume_suspended[where port = dapp_port and response = "\<lparr>response_id = ''1'', result = Result (Arr [])\<rparr>"])
       (simp_all add: asked_state allow_record_def checkPermission_def dapp_port_def)
  finally show ?thesis .
qed

lemma task_Grant_suspended:
  assumes "microtasks s = []" "pendingPermissionsRequests s (url p) = Some k"
    "awaiting s k = Some (port, response)"
  shows "posted (task (Grant p) s) =
     posted s @ [(port,
        if checkPermission (s\<lparr>allowedPages := (allowedPages s)(url p \<mapsto> p)\<rparr>) (sender_url port)
        then response else response\<lparr>result := EIP1193Error userRejectedRequest\<rparr>)]"
  using assms
  by (simp add: task_Grant resume_suspended checkPermission_def)

lemma task_Deny_suspended:
  assumes "microtasks s = []" "pendingPermissionsRequests s (url p) = Some k"
    "awaiting s k = Some (port, response)"
  shows "posted (task (Deny p) s) =
     posted s @ [(port,
        if checkPermission (s\<lparr>allowedPages := (allowedPages s)(url p := None)\<rparr>) (sender_url port)
        then response else response\<lparr>result := EIP1193Error userRejectedRequest\<rparr>)]"
  using assms
  by (simp add: task_Deny resume_suspended checkPermission_def)

lemma asked_snd:
  "snd (onMessageListener wallet_env dapp_port connect_event initial) = asked"
  by (simp add: asked_def task_Message initial_def)

lemma well_formed_asked: "well_formed asked"
  unfolding asked_def by (rule well_formed_run[OF well_formed_initial])

section \<open>The dispatcher\<close>

text \<open>
  C7. For every method and parameter list, the dispatcher forwards the call to the
  provider's \<^verbatim>\<open>routeSafeRPCRequest\<close> with the same parameters; the method name
  \<^verbatim>\<open>eth_requestAccounts\<close> is replaced by \<^verbatim>\<open>eth_accounts\<close>, every other name is passed
  as it is. What the provider returns or throws is the dispatcher's outcome.
\<close>

theorem dispatch_forwards:
  "routeContentScriptRPCRequest e m ps =
     routeSafeRPCRequest e (if m = ''eth_requestAccounts'' then ''eth_accounts'' else m) ps"
  by (simp add: routeContentScriptRPCRequest_def)

section \<open>The message handler\<close>

text \<open>
  C5. For every origin with no stored permission record and every method other than
  \<^verbatim>\<open>eth_requestAccounts\<close>, the handler completes at once: it posts on the port the
  response with the envelope's id and the \<^verbatim>\<open>unauthorized\<close> error as its result, and
  that post is the only change of the state. The permission store, the registry of
  pending requests, the suspended handlers and the emitted events stay as they were.
\<close>

theorem unauthorised_method_fails_closed:
  assumes "allowedPages s (sender_url port) = None"
    and "method (request event) \<noteq> ''eth_requestAccounts''"
  shows "onMessageListener e port event s =
     (Fulfilled,
      s\<lparr>posted := posted s @
         [(port, \<lparr>response_id = request_id event, result = EIP1193Error unauthorized\<rparr>)]\<rparr>)"
proof -
  have "\<not> checkPermission s (sender_url port)"
    using assms(1) by (simp add: checkPermission_def)
  then show ?thesis using assms(2) by (rule onMessageListener_unauthorised)
qed

theorem unauthorised_method_fails_closed_witness:
  "allowedPages initial (sender_url dapp_port) = None \<and>
   method (request sign_event) \<noteq> ''eth_requestAccounts'' \<and>
   onMessageListener wallet_env dapp_port sign_event initial =
     (Fulfilled,
      initial\<lparr>posted :=
         [(dapp_port, \<lparr>response_id = ''2'', result = EIP1193Error unauthorized\<rparr>)]\<rparr>)"
proof -
  have a: "allowedPages initial (sender_url dapp_port) = None"
    by (simp add: initial_def)
  have b: "method (request sign_event) \<noteq> ''eth_requestAccounts''"
    by (simp add: sign_event_def)
  have c: "posted initial = []" "request_id sign_event = ''2''"
    by (simp_all add: initial_def sign_event_def)
  show ?thesis
    using unauthorised_method_fails_closed[OF a b, of wallet_env] a b c by simp
qed

text \<open>
  With a browser that refuses to create the window, the connection request of the
  example origin emits its event and then ends with the browser's error: the
  registry stays empty and no handler is suspended.
\<close>

theorem window_failure_registers_nothing:
  "allowedPages initial (sender_url dapp_port) = None \<and>
   method (request connect_event) = ''eth_requestAccounts'' \<and>
   onMessageListener windowless_env dapp_port connect_event initial =
     (Rejected (Thrown (Str ''no window'')),
      initial\<lparr>emitted :=
        [\<lparr>url = ''https://dapp.example'', favIconUrl = [], title = ''Dapp'',
          state = ''request''\<rparr>]\<rparr>) \<and>
   pendingPermissionsRequests
     (snd (onMessageListener windowless_env dapp_port connect_event initial)) = Map.empty \<and>
   awaiting (snd (onMessageListener windowless_env dapp_port connect_event initial)) =
     Map.empty"
proof -
  have c: "\<not> checkPermission initial (sender_url dapp_port)"
    by (simp add: checkPermission_def initial_def)
  have m: "method (request connect_event) = ''eth_requestAccounts''"
    by (simp add: connect_event_def)
  have h: "onMessageListener windowless_env dapp_port connect_event initial =
     (Rejected (Thrown (Str ''no window'')),
      initial\<lparr>emitted :=
        [\<lparr>url = ''https://dapp.example'', favIconUrl = [], title = ''Dapp'',
          state = ''request''\<rparr>]\<rparr>)"
    by (simp add: onMessageListener_connect_fails[OF c m window_refused])
      (simp add: initial_def dapp_port_def sender_favIconUrl_def sender_title_def)
  show ?thesis using m by (simp add: h) (simp add: initial_def)
qed

text \<open>
  C6. For every \<^verbatim>\<open>eth_requestAccounts\<close> envelope from an origin with no stored record,
  the handler emits exactly one \<^verbatim>\<open>requestPermission\<close> event, whose state is \<^verbatim>\<open>request\<close>,
  and posts nothing. When the browser opens the consent window, the handler stores
  exactly one entry in the registry, under the origin, and suspends; in a
  well-formed state it then stays suspended through every sequence of actions that
  holds no grant and no denial for the origin, and a grant or a denial for the
  origin posts its response. When opening the consent window fails, the handler
  stores no entry and does not suspend: it ends with the error of the window call.
\<close>

theorem connection_request_suspends:
  assumes none: "allowedPages s (sender_url port) = None"
    and m: "method (request event) = ''eth_requestAccounts''"
    and s': "s' = snd (onMessageListener e port event s)"
    and r: "response = \<lparr>response_id = request_id event, result = Result (Arr [])\<rparr>"
  shows "emitted s' = emitted s @
       [\<lparr>url = sender_url port, favIconUrl = sender_favIconUrl port,
         title = sender_title port, state = ''request''\<rparr>] \<and>
     posted s' = posted s \<and>
     allowedPages s' = allowedPages s \<and>
     (\<forall>win. showDappConnectWindow e (dappConnect e) = Inr win \<longrightarrow>
        fst (onMessageListener e port event s) = Pending (promises s) \<and>
        pendingPermissionsRequests s' =
          (pendingPermissionsRequests s)(sender_url port \<mapsto> promises s) \<and>
        awaiting s' = (awaiting s)(promises s \<mapsto> (port, response)) \<and>
        (well_formed s \<longrightarrow>
           (\<forall>as. (\<forall>a\<in>set as. \<not> decision_for (sender_url port) a) \<longrightarrow>
              awaiting (run as s') (promises s) = Some (port, response)) \<and>
           (\<forall>p. url p = sender_url port \<longrightarrow>
              (\<exists>res. posted (task (Grant p) s') =
                 posted s @ [(port, \<lparr>response_id = request_id event, result = res\<rparr>)]) \<and>
              posted (task (Deny p) s') =
                 posted s @ [(port, \<lparr>response_id = request_id event,
                                     result = EIP1193Error userRejectedRequest\<rparr>)]))) \<and>
     (\<forall>err. showDappConnectWindow e (dappConnect e) = Inl err \<longrightarrow>
        fst (onMessageListener e port event s) = Rejected err \<and>
        pendingPermissionsRequests s' = pendingPermissionsRequests s \<and>
        awaiting s' = awaiting s \<and>
        promises s' = promises s)"
proof -
  have c: "\<not> checkPermission s (sender_url port)"
    using none by (simp add: checkPermission_def)
  have opened: "fst (onMessageListener e port event s) = Pending (promises s) \<and>
        emitted s' = emitted s @
          [\<lparr>url = sender_url port, favIconUrl = sender_favIconUrl port,
            title = sender_title port, state = ''request''\<rparr>] \<and>
        posted s' = posted s \<and>
        allowedPages s' = allowedPages s \<and>
        pendingPermissionsRequests s' =
          (pendingPermissionsRequests s)(sender_url port \<mapsto> promises s) \<and>
        awaiting s' = (awaiting s)(promises s \<mapsto> (port, response)) \<and>
        (well_formed s \<longrightarrow>
           (\<forall>as. (\<forall>a\<in>set as. \<not> decision_for (sender_url port) a) \<longrightarrow>
              awaiting (run as s') (promises s) = Some (port, response)) \<and>
           (\<forall>p. url p = sender_url port \<longrightarrow>
              (\<exists>res. posted (task (Grant p) s') =
                 posted s @ [(port, \<lparr>response_id = request_id event, result = res\<rparr>)]) \<and>
              posted (task (Deny p) s') =
                 posted s @ [(port, \<lparr>response_id = request_id event,
                                     result = EIP1193Error userRejectedRequest\<rparr>)]))"
    if w: "showDappConnectWindow e (dappConnect e) = Inr win" for win
  proof -
    note eq = onMessageListener_connect[OF c m w]
    have st: "s' = s\<lparr>emitted := emitted s @
             [\<lparr>url = sender_url port, favIconUrl = sender_favIconUrl port,
               title = sender_title port, state = ''request''\<rparr>],
           promises := Suc (promises s),
           pendingPermissionsRequests :=
             (pendingPermissionsRequests s)(sender_url port \<mapsto> promises s),
           awaiting := (awaiting s)(promises s \<mapsto> (port, response))\<rparr>"
      by (simp add: s' eq r)
    have now: "fst (onMessageListener e port event s) = Pending (promises s)"
      by (simp add: eq)
    have later: "(\<forall>as. (\<forall>a\<in>set as. \<not> decision_for (sender_url port) a) \<longrightarrow>
             awaiting (run as s') (promises s) = Some (port, response)) \<and>
          (\<forall>p. url p = sender_url port \<longrightarrow>
             (\<exists>res. posted (task (Grant p) s') =
                posted s @ [(port, \<lparr>response_id = request_id event, result = res\<rparr>)]) \<and>
             posted (task (Deny p) s') =
                posted s @ [(port, \<lparr>response_id = request_id event,
                                    result = EIP1193Error userRejectedRequest\<rparr>)])"
      if wf: "well_formed s"
    proof -
      have mt: "microtasks s' = []" using wf by (simp add: st well_formed_def)
      have held: "held_by (promises s) {sender_url port} s'"
        using wf by (auto simp: st held_by_def well_formed_def)
      have aw: "awaiting s' (promises s) = Some (port, response)" by (simp add: st)
      have pe: "pendingPermissionsRequests s' (sender_url port) = Some (promises s)"
        by (simp add: st)
      have 1: "awaiting (run as s') (promises s) = Some (port, response)"
        if "\<forall>a\<in>set as. \<not> decision_for (sender_url port) a" for as
        using held_by_run[OF held, of as] that aw by simp
      have 2: "\<exists>res. posted (task (Grant p) s') =
                posted s @ [(port, \<lparr>response_id = request_id event, result = res\<rparr>)]"
        if "url p = sender_url port" for p
        using task_Grant_suspended[OF mt, of p "promises s" port response] pe that
        by (auto simp: st r)
      have 3: "posted (task (Deny p) s') =
                posted s @ [(port, \<lparr>response_id = request_id event,
                                    result = EIP1193Error userRejectedRequest\<rparr>)]"
        if "url p = sender_url port" for p
        using task_Deny_suspended[OF mt, of p "promises s" port response] pe that
        by (simp add: checkPermission_def) (simp add: st r)
      show ?thesis using 1 2 3 by blast
    qed
    show ?thesis using now later by (simp add: st)
  qed
  have refused: "fst (onMessageListener e port event s) = Rejected err \<and>
        emitted s' = emitted s @
          [\<lparr>url = sender_url port, favIconUrl = sender_favIconUrl port,
            title = sender_title port, state = ''request''\<rparr>] \<and>
        posted s' = posted s \<and>
        allowedPages s' = allowedPages s \<and>
        pendingPermissionsRequests s' = pendingPermissionsRequests s \<and>
        awaiting s' = awaiting s \<and>
        promises s' = promises s"
    if w: "showDappConnectWindow e (dappConnect e) = Inl err" for err
    by (simp add: s' onMessageListener_connect_fails[OF c m w])
  show ?thesis
  proof (cases "showDappConnectWindow e (dappConnect e)")
    case (Inl err)
    then show ?thesis using refused[OF Inl] by simp
  next
    case (Inr win)
    then show ?thesis using opened[OF Inr] by simp
  qed
qed

theorem connection_request_suspends_witness:
  "allowedPages initial (sender_url dapp_port) = None \<and>
   method (request connect_event) = ''eth_requestAccounts'' \<and>
   showDappConnectWindow wallet_env (dappConnect wallet_env) =
     Inr \<lparr>win_left = Some 1536, win_top = Some 0, win_width = Some 384\<rparr> \<and>
   well_formed initial \<and>
   fst (onMessageListener wallet_env dapp_port connect_event initial) = Pending 0 \<and>
   emitted asked =
     [\<lparr>url = ''https://dapp.example'', favIconUrl = [], title = ''Dapp'',
       state = ''request''\<rparr>] \<and>
   pendingPermissionsRequests asked = [''https://dapp.example'' \<mapsto> 0] \<and>
   posted asked = [] \<and>
   awaiting (run [Message wallet_env dapp_port sign_event] asked) 0 =
     Some (dapp_port, \<lparr>response_id = ''1'', result = Result (Arr [])\<rparr>) \<and>
   posted (task (Deny deny_record) asked) =
     [(dapp_port, \<lparr>response_id = ''1'', result = EIP1193Error userRejectedRequest\<rparr>)] \<and>
   showDappConnectWindow windowless_env (dappConnect windowless_env) =
     Inl (Thrown (Str ''no window'')) \<and>
   fst (onMessageListener windowless_env dapp_port connect_event initial) =
     Rejected (Thrown (Str ''no window'')) \<and>
   pendingPermissionsRequests
     (snd (onMessageListener windowless_env dapp_port connect_event initial)) = Map.empty"
proof -
  have a: "allowedPages initial (sender_url dapp_port) = None"
    by (simp add: initial_def)
  have b: "method (request connect_event) = ''eth_requestAccounts''"
    by (simp add: connect_event_def)
  have i: "promises initial = 0" "posted initial = []" "emitted initial = []"
    "pendingPermissionsRequests initial = Map.empty"
    by (simp_all add: initial_def)
  have v: "sender_url dapp_port = ''https://dapp.example''"
    "sender_favIconUrl dapp_port = []" "sender_title dapp_port = ''Dapp''"
    "request_id connect_event = ''1''" "url deny_record = ''https://dapp.example''"
    by (simp_all add: dapp_port_def sender_favIconUrl_def sender_title_def connect_event_def
        deny_record_def)
  have nd: "\<forall>a\<in>set [Message wallet_env dapp_port sign_event].
      \<not> decision_for (sender_url dapp_port) a"
    by simp
  have du: "url deny_record = sender_url dapp_port"
    by (simp add: dapp_port_def deny_record_def)
  note T = connection_request_suspends[OF a b asked_snd[symmetric] refl]
  note E = T[THEN conjunct1]
  note P = T[THEN conjunct2, THEN conjunct1]
  note O = T[THEN conjunct2, THEN conjunct2, THEN conjunct2, THEN conjunct1, THEN spec,
      THEN mp, OF window_example]
  note L = O[THEN conjunct2, THEN conjunct2, THEN conjunct2, THEN mp,
      OF well_formed_initial]
  note L1 = L[THEN conjunct1, THEN spec, of "[Message wallet_env dapp_port sign_event]",
      THEN mp, OF nd]
  note L2 = L[THEN conjunct2, THEN spec, of deny_record, THEN mp, OF du, THEN conjunct2]
  note F = connection_request_suspends[OF a b refl refl, of windowless_env,
      THEN conjunct2, THEN conjunct2, THEN conjunct2, THEN conjunct2, THEN spec,
      THEN mp, OF window_refused]
  have now: "fst (onMessageListener wallet_env dapp_port connect_event initial) = Pending 0"
    "emitted asked =
     [\<lparr>url = ''https://dapp.example'', favIconUrl = [], title = ''Dapp'',
       state = ''request''\<rparr>]"
    "pendingPermissionsRequests asked = [''https://dapp.example'' \<mapsto> 0]"
    "posted asked = []"
    using E P O by (simp_all add: i v)
  show ?thesis
    using a b window_example window_refused well_formed_initial now L1 L2 F
    by (simp add: i v)
qed



text \<open>
  A provider error is not delivered. The example origin is authorised and sends a
  call on which the provider throws: the handler ends with the provider's error and
  the state, with its log of posted messages, is what it was. Nor is the error of
  a window call delivered: with a browser that refuses to create the window, the
  connection request of the example origin ends with the browser's error and
  nothing is posted.
\<close>

theorem provider_error_posts_nothing:
  "checkPermission connected (sender_url dapp_port) \<and>
   routeSafeRPCRequest wallet_env (method (request call_event)) (params (request call_event)) =
     Inl (Thrown (Str ''unsupported'')) \<and>
   onMessageListener wallet_env dapp_port call_event connected =
     (Rejected (Thrown (Str ''unsupported'')), connected) \<and>
   posted (run [Message wallet_env dapp_port call_event] connected) = posted connected \<and>
   fst (onMessageListener windowless_env dapp_port connect_event initial) =
     Rejected (Thrown (Str ''no window'')) \<and>
   posted (run [Message windowless_env dapp_port connect_event] initial) = []"
proof -
  have c: "checkPermission connected (sender_url dapp_port)"
    by (simp add: connected_state checkPermission_def dapp_port_def allow_record_def)
  have r: "routeSafeRPCRequest wallet_env (method (request call_event))
      (params (request call_event)) = Inl (Thrown (Str ''unsupported''))"
    by (simp add: wallet_env_def call_event_def)
  have h: "onMessageListener wallet_env dapp_port call_event connected =
     (Rejected (Thrown (Str ''unsupported'')), connected)"
    by (simp add: onMessageListener_authorised[OF c] routeContentScriptRPCRequest_def
        wallet_env_def call_event_def)
  have m: "microtasks connected = []" by (simp add: connected_state)
  have ci: "\<not> checkPermission initial (sender_url dapp_port)"
    by (simp add: checkPermission_def initial_def)
  have mc: "method (request connect_event) = ''eth_requestAccounts''"
    by (simp add: connect_event_def)
  have mi: "microtasks initial = []" "posted initial = []" by (simp_all add: initial_def)
  note w = onMessageListener_connect_fails[OF ci mc window_refused]
  show ?thesis
    using c r h by (simp add: task_Message[OF m] task_Message[OF mi(1)] w mi(2))
qed

text \<open>
  C2. For every inbound envelope: when the origin is authorised and the provider
  returns, the handler posts the response with the provider's value, unchanged, as
  its result; when the origin is not authorised and the method is not
  \<^verbatim>\<open>eth_requestAccounts\<close>, it posts the response with the \<^verbatim>\<open>unauthorized\<close> error as its
  result; and a handler that is resumed after its suspension while the permission
  check is still false posts the response it kept with the \<^verbatim>\<open>userRejectedRequest\<close>
  error as its result. Both bridge errors are values of the result field. An error
  thrown by the provider is not translated and not delivered: the handler ends with
  that same error, with the state unchanged and nothing posted. An error thrown
  while the consent window is opened ends the handler with that error in the same
  way, after the event has been emitted and with nothing posted. A handler that
  suspends has posted nothing.
\<close>

theorem outcomes_of_handler:
  "(\<forall>r. checkPermission s (sender_url port) \<longrightarrow>
      routeSafeRPCRequest e
        (if method (request event) = ''eth_requestAccounts'' then ''eth_accounts''
         else method (request event))
        (params (request event)) = Inr r \<longrightarrow>
      onMessageListener e port event s =
        (Fulfilled,
         postMessage port \<lparr>response_id = request_id event, result = Result r\<rparr> s)) \<and>
   (\<forall>err. checkPermission s (sender_url port) \<longrightarrow>
      routeSafeRPCRequest e
        (if method (request event) = ''eth_requestAccounts'' then ''eth_accounts''
         else method (request event))
        (params (request event)) = Inl err \<longrightarrow>
      onMessageListener e port event s = (Rejected err, s)) \<and>
   (\<not> checkPermission s (sender_url port) \<longrightarrow>
      method (request event) \<noteq> ''eth_requestAccounts'' \<longrightarrow>
      onMessageListener e port event s =
        (Fulfilled,
         postMessage port
           \<lparr>response_id = request_id event, result = EIP1193Error unauthorized\<rparr> s)) \<and>
   (\<forall>err. \<not> checkPermission s (sender_url port) \<longrightarrow>
      method (request event) = ''eth_requestAccounts'' \<longrightarrow>
      showDappConnectWindow e (dappConnect e) = Inl err \<longrightarrow>
      onMessageListener e port event s =
        (Rejected err,
         emit_requestPermission
           \<lparr>url = sender_url port, favIconUrl = sender_favIconUrl port,
             title = sender_title port, state = ''request''\<rparr> s) \<and>
      posted (snd (onMessageListener e port event s)) = posted s) \<and>
   (\<forall>win. \<not> checkPermission s (sender_url port) \<longrightarrow>
      method (request event) = ''eth_requestAccounts'' \<longrightarrow>
      showDappConnectWindow e (dappConnect e) = Inr win \<longrightarrow>
      fst (onMessageListener e port event s) = Pending (promises s) \<and>
      posted (snd (onMessageListener e port event s)) = posted s) \<and>
   (\<forall>t k v port' r. awaiting t k = Some (port', r) \<longrightarrow>
      \<not> checkPermission t (sender_url port') \<longrightarrow>
      posted (resume (k, v) t) =
        posted t @ [(port', r\<lparr>result := EIP1193Error userRejectedRequest\<rparr>)])"
proof -
  let ?m = "if method (request event) = ''eth_requestAccounts'' then ''eth_accounts''
         else method (request event)"
  have route: "routeContentScriptRPCRequest e (method (request event)) (params (request event)) =
      routeSafeRPCRequest e ?m (params (request event))"
    by (simp add: routeContentScriptRPCRequest_def)
  have 1: "onMessageListener e port event s =
        (Fulfilled,
         postMessage port \<lparr>response_id = request_id event, result = Result r\<rparr> s)"
    if "checkPermission s (sender_url port)"
      "routeSafeRPCRequest e ?m (params (request event)) = Inr r" for r
    using that(2) by (simp add: onMessageListener_authorised[OF that(1)] route postMessage_def)
  have 2: "onMessageListener e port event s = (Rejected err, s)"
    if "checkPermission s (sender_url port)"
      "routeSafeRPCRequest e ?m (params (request event)) = Inl err" for err
    using that(2) by (simp add: onMessageListener_authorised[OF that(1)] route)
  have 3: "onMessageListener e port event s =
        (Fulfilled,
         postMessage port
           \<lparr>response_id = request_id event, result = EIP1193Error unauthorized\<rparr> s)"
    if "\<not> checkPermission s (sender_url port)"
      "method (request event) \<noteq> ''eth_requestAccounts''"
    by (simp add: onMessageListener_unauthorised[OF that] postMessage_def)
  have 4: "onMessageListener e port event s =
        (Rejected err,
         emit_requestPermission
           \<lparr>url = sender_url port, favIconUrl = sender_favIconUrl port,
             title = sender_title port, state = ''request''\<rparr> s) \<and>
      posted (snd (onMessageListener e port event s)) = posted s"
    if "\<not> checkPermission s (sender_url port)"
      "method (request event) = ''eth_requestAccounts''"
      "showDappConnectWindow e (dappConnect e) = Inl err" for err
    by (simp add: onMessageListener_connect_fails[OF that] emit_requestPermission_def)
  have 5: "fst (onMessageListener e port event s) = Pending (promises s) \<and>
      posted (snd (onMessageListener e port event s)) = posted s"
    if "\<not> checkPermission s (sender_url port)"
      "method (request event) = ''eth_requestAccounts''"
      "showDappConnectWindow e (dappConnect e) = Inr win" for win
    by (simp add: onMessageListener_connect[OF that])
  have 6: "posted (resume (k, v) t) =
        posted t @ [(port', r\<lparr>result := EIP1193Error userRejectedRequest\<rparr>)]"
    if "awaiting t k = Some (port', r)" "\<not> checkPermission t (sender_url port')"
    for t k v port' r
    using that(2) by (simp add: resume_suspended[OF that(1)])
  show ?thesis using 1 2 3 4 5 6 by blast
qed

theorem outcomes_of_handler_witness:
  "checkPermission connected (sender_url dapp_port) \<and>
   onMessageListener wallet_env dapp_port connect_event connected =
     (Fulfilled,
      postMessage dapp_port
        \<lparr>response_id = ''1'', result = Result (Arr [Str ''0xd8da''])\<rparr> connected) \<and>
   onMessageListener wallet_env dapp_port call_event connected =
     (Rejected (Thrown (Str ''unsupported'')), connected) \<and>
   \<not> checkPermission initial (sender_url dapp_port) \<and>
   onMessageListener wallet_env dapp_port sign_event initial =
     (Fulfilled,
      postMessage dapp_port
        \<lparr>response_id = ''2'', result = EIP1193Error unauthorized\<rparr> initial) \<and>
   fst (onMessageListener windowless_env dapp_port connect_event initial) =
     Rejected (Thrown (Str ''no window'')) \<and>
   posted (snd (onMessageListener windowless_env dapp_port connect_event initial)) = [] \<and>
   fst (onMessageListener wallet_env dapp_port connect_event initial) = Pending 0 \<and>
   posted (snd (onMessageListener wallet_env dapp_port connect_event initial)) = [] \<and>
   awaiting asked 0 = Some (dapp_port, \<lparr>response_id = ''1'', result = Result (Arr [])\<rparr>) \<and>
   \<not> checkPermission asked (sender_url dapp_port) \<and>
   posted (resume (0, Text ''Time to move on'') asked) =
     [(dapp_port, \<lparr>response_id = ''1'', result = EIP1193Error userRejectedRequest\<rparr>)]"
proof -
  have c: "checkPermission connected (sender_url dapp_port)"
    by (simp add: connected_state checkPermission_def dapp_port_def allow_record_def)
  have ci: "\<not> checkPermission initial (sender_url dapp_port)"
    by (simp add: checkPermission_def initial_def)
  have ca: "\<not> checkPermission asked (sender_url dapp_port)"
    by (simp add: checkPermission_def asked_state)
  have r1: "routeSafeRPCRequest wallet_env
      (if method (request connect_event) = ''eth_requestAccounts'' then ''eth_accounts''
       else method (request connect_event))
      (params (request connect_event)) = Inr (Arr [Str ''0xd8da''])"
    by (simp add: wallet_env_def connect_event_def)
  have r2: "routeSafeRPCRequest wallet_env
      (if method (request call_event) = ''eth_requestAccounts'' then ''eth_accounts''
       else method (request call_event))
      (params (request call_event)) = Inl (Thrown (Str ''unsupported''))"
    by (simp add: wallet_env_def call_event_def)
  have ms: "method (request sign_event) \<noteq> ''eth_requestAccounts''"
    by (simp add: sign_event_def)
  have mc: "method (request connect_event) = ''eth_requestAccounts''"
    by (simp add: connect_event_def)
  have a: "awaiting asked 0 =
      Some (dapp_port, \<lparr>response_id = ''1'', result = Result (Arr [])\<rparr>)"
    by (simp add: asked_state)
  have v: "request_id connect_event = ''1''" "request_id sign_event = ''2''"
    "posted initial = []" "promises initial = 0" "posted asked = []"
    by (simp_all add: connect_event_def sign_event_def initial_def asked_state)
  note A = outcomes_of_handler[where s = connected and port = dapp_port
      and event = connect_event and e = wallet_env, THEN conjunct1, THEN spec, THEN mp,
      OF c, THEN mp, OF r1]
  note B = outcomes_of_handler[where s = connected and port = dapp_port
      and event = call_event and e = wallet_env, THEN conjunct2, THEN conjunct1, THEN spec,
      THEN mp, OF c, THEN mp, OF r2]
  note C = outcomes_of_handler[where s = initial and port = dapp_port
      and event = sign_event and e = wallet_env, THEN conjunct2, THEN conjunct2,
      THEN conjunct1, THEN mp, OF ci, THEN mp, OF ms]
  note D = outcomes_of_handler[where s = initial and port = dapp_port
      and event = connect_event and e = windowless_env, THEN conjunct2, THEN conjunct2,
      THEN conjunct2, THEN conjunct1, THEN spec, THEN mp, OF ci, THEN mp, OF mc, THEN mp,
      OF window_refused]
  note E = outcomes_of_handler[where s = initial and port = dapp_port
      and event = connect_event and e = wallet_env, THEN conjunct2, THEN conjunct2,
      THEN conjunct2, THEN conjunct2, THEN conjunct1, THEN spec, THEN mp, OF ci, THEN mp,
      OF mc, THEN mp, OF window_example]
  note F = outcomes_of_handler[where s = initial and port = dapp_port
      and event = connect_event and e = wallet_env, THEN conjunct2, THEN conjunct2,
      THEN conjunct2, THEN conjunct2, THEN conjunct2, THEN spec, THEN spec, THEN spec,
      THEN spec, THEN spec, THEN mp, OF a, THEN mp, OF ca, of "Text ''Time to move on''"]
  have d1: "fst (onMessageListener windowless_env dapp_port connect_event initial) =
     Rejected (Thrown (Str ''no window''))"
    by (simp add: D[THEN conjunct1])
  show ?thesis
    using c ci ca a A B C d1 D[THEN conjunct2] E F by (simp add: v)
qed

text \<open>
  C1. The example origin has no permission and sends \<^verbatim>\<open>eth_requestAccounts\<close>; the user
  grants. When the handler is resumed the permission check is true, and the
  response it posts has the empty list as its result, while dispatching the
  connection method to the provider returns the account list.
\<close>

theorem granted_connection_answers_empty_list:
  "checkPermission
     (run [Message wallet_env dapp_port connect_event, Grant allow_record] initial)
     (sender_url dapp_port) \<and>
   posted (run [Message wallet_env dapp_port connect_event, Grant allow_record] initial) =
     [(dapp_port, \<lparr>response_id = ''1'', result = Result (Arr [])\<rparr>)] \<and>
   routeContentScriptRPCRequest wallet_env (method (request connect_event))
     (params (request connect_event)) = Inr (Arr [Str ''0xd8da''])"
proof -
  have "run [Message wallet_env dapp_port connect_event, Grant allow_record] initial = connected"
    by (simp add: connected_def)
  then show ?thesis
    by (simp add: connected_state checkPermission_def dapp_port_def allow_record_def
        routeContentScriptRPCRequest_def wallet_env_def connect_event_def)
qed

section \<open>The permission store\<close>

text \<open>
  A grant for an origin that has no pending request stores nothing: after it the
  permission check for the origin is still false.
\<close>

theorem grant_without_pending_request_counterexample:
  "\<not> checkPermission (grantPermission allow_record initial) (url allow_record)"
  by (simp add: grantPermission_def initial_def checkPermission_def)

text \<open>
  C3. For every permission record whose origin has a pending request,
  \<^verbatim>\<open>grantPermission\<close> stores the record as it is given under its origin, settles the
  pending promise with it and removes the pending entry; the permission check for
  the origin is true afterwards exactly when the record's state is \<^verbatim>\<open>allow\<close>. For an
  origin with no pending request \<^verbatim>\<open>grantPermission\<close> changes nothing. A second grant
  with the same record changes nothing.
\<close>

theorem grantPermission_stores_record:
  "(\<forall>k. pendingPermissionsRequests s (url r) = Some k \<longrightarrow>
      grantPermission r s =
        s\<lparr>allowedPages := (allowedPages s)(url r \<mapsto> r),
          microtasks := microtasks s @ [(k, Permission r)],
          pendingPermissionsRequests := (pendingPermissionsRequests s)(url r := None)\<rparr> \<and>
      checkPermission (grantPermission r s) (url r) = (state r = ''allow'')) \<and>
   (pendingPermissionsRequests s (url r) = None \<longrightarrow> grantPermission r s = s) \<and>
   grantPermission r (grantPermission r s) = grantPermission r s"
proof -
  have 1: "grantPermission r s =
        s\<lparr>allowedPages := (allowedPages s)(url r \<mapsto> r),
          microtasks := microtasks s @ [(k, Permission r)],
          pendingPermissionsRequests := (pendingPermissionsRequests s)(url r := None)\<rparr> \<and>
      checkPermission (grantPermission r s) (url r) = (state r = ''allow'')"
    if "pendingPermissionsRequests s (url r) = Some k" for k
    by (simp add: grantPermission_pending[OF that] checkPermission_def)
  have 2: "grantPermission r s = s" if "pendingPermissionsRequests s (url r) = None"
    using that by (rule grantPermission_absent)
  have 3: "grantPermission r (grantPermission r s) = grantPermission r s"
  proof (cases "pendingPermissionsRequests s (url r)")
    case None
    then show ?thesis by (simp add: grantPermission_absent)
  next
    case (Some k)
    have "pendingPermissionsRequests (grantPermission r s) (url r) = None"
      by (simp add: grantPermission_pending[OF Some])
    then show ?thesis by (rule grantPermission_absent)
  qed
  show ?thesis using 1 2 3 by blast
qed

theorem grantPermission_stores_record_witness:
  "pendingPermissionsRequests asked (url allow_record) = Some 0 \<and>
   allowedPages (grantPermission allow_record asked) (url allow_record) = Some allow_record \<and>
   checkPermission (grantPermission allow_record asked) (url allow_record) \<and>
   pendingPermissionsRequests asked (url deny_record) = Some 0 \<and>
   \<not> checkPermission (grantPermission deny_record asked) (url deny_record) \<and>
   pendingPermissionsRequests initial (url allow_record) = None \<and>
   grantPermission allow_record initial = initial"
proof -
  have p: "pendingPermissionsRequests asked (url allow_record) = Some 0"
    "pendingPermissionsRequests asked (url deny_record) = Some 0"
    by (simp_all add: asked_state allow_record_def deny_record_def)
  have n: "pendingPermissionsRequests initial (url allow_record) = None"
    by (simp add: initial_def)
  have st: "state allow_record = ''allow''" "state deny_record \<noteq> ''allow''"
    by (simp_all add: allow_record_def deny_record_def)
  note A = grantPermission_stores_record[of asked allow_record, THEN conjunct1, THEN spec,
      THEN mp, OF p(1)]
  note D = grantPermission_stores_record[of asked deny_record, THEN conjunct1, THEN spec,
      THEN mp, OF p(2), THEN conjunct2]
  note I = grantPermission_stores_record[of initial allow_record, THEN conjunct2,
      THEN conjunct1, THEN mp, OF n]
  have "allowedPages (grantPermission allow_record asked) (url allow_record) = Some allow_record"
    by (simp add: A[THEN conjunct1])
  then show ?thesis using p n st A[THEN conjunct2] D I by simp
qed


text \<open>
  C4. The example origin has been granted permission, so it has no pending request.
  \<^verbatim>\<open>denyOrRevokePermission\<close> for that origin changes nothing, as a call and as a task
  of the event loop: the permission check for the origin is true before and after.
\<close>

theorem revoke_leaves_granted_origin_allowed:
  "checkPermission connected (url deny_record) \<and>
   denyOrRevokePermission deny_record connected = connected \<and>
   checkPermission (run [Deny deny_record] connected) (url deny_record)"
proof -
  have a: "pendingPermissionsRequests connected (url deny_record) = None"
    by (simp add: connected_state)
  have m: "microtasks connected = []" by (simp add: connected_state)
  have c: "checkPermission connected (url deny_record)"
    by (simp add: connected_state checkPermission_def deny_record_def allow_record_def)
  have "run [Deny deny_record] connected = connected"
    by (simp add: task_Deny[OF m] a)
  then show ?thesis using c by (simp add: denyOrRevokePermission_absent[OF a])
qed

section \<open>The registry of pending requests\<close>

text \<open>
  C9. The registry maps an origin to one \<^verbatim>\<open>resolve\<close>. When an origin that already has
  an entry, with a handler suspended on it, sends a second connection request, the
  entry of the origin becomes the new promise, no entry refers to the first promise
  any more, and the first handler stays suspended through every sequence of
  actions that follows.
\<close>

theorem second_request_orphans_first:
  assumes wf: "well_formed s"
    and first: "pendingPermissionsRequests s (sender_url port) = Some k1"
    and caller: "awaiting s k1 = Some caller"
    and c: "\<not> checkPermission s (sender_url port)"
    and m: "method (request event) = ''eth_requestAccounts''"
    and w: "showDappConnectWindow e (dappConnect e) = Inr win"
    and s': "s' = task (Message e port event) s"
  shows "pendingPermissionsRequests s' (sender_url port) = Some (promises s) \<and>
     promises s \<noteq> k1 \<and>
     awaiting s' (promises s) =
       Some (port, \<lparr>response_id = request_id event, result = Result (Arr [])\<rparr>) \<and>
     (\<forall>u. pendingPermissionsRequests s' u \<noteq> Some k1) \<and>
     (\<forall>as. awaiting (run as s') k1 = Some caller)"
proof -
  have mt: "microtasks s = []"
    and lt: "\<And>u k. pendingPermissionsRequests s u = Some k \<Longrightarrow> k < promises s"
    and inj: "\<And>u u' k. pendingPermissionsRequests s u = Some k \<Longrightarrow>
        pendingPermissionsRequests s u' = Some k \<Longrightarrow> u = u'"
    using wf by (auto simp: well_formed_def)
  have k1: "k1 < promises s" using lt[OF first] .
  have st: "s' = s\<lparr>emitted := emitted s @
           [\<lparr>url = sender_url port, favIconUrl = sender_favIconUrl port,
             title = sender_title port, state = ''request''\<rparr>],
         promises := Suc (promises s),
         pendingPermissionsRequests :=
           (pendingPermissionsRequests s)(sender_url port \<mapsto> promises s),
         awaiting := (awaiting s)(promises s \<mapsto>
           (port, \<lparr>response_id = request_id event, result = Result (Arr [])\<rparr>))\<rparr>"
    by (simp add: s' task_Message[OF mt] onMessageListener_connect[OF c m w])
  have gone: "pendingPermissionsRequests s' u \<noteq> Some k1" for u
  proof (cases "u = sender_url port")
    case True
    then show ?thesis using k1 by (simp add: st)
  next
    case False
    then show ?thesis using inj[OF first, of u] by (auto simp: st)
  qed
  have held: "held_by k1 {} s'"
    using gone k1 mt by (simp add: held_by_def) (simp add: st)
  have aw: "awaiting s' k1 = Some caller" using k1 caller by (simp add: st)
  have never: "awaiting (run as s') k1 = Some caller" for as
    using held_by_run[OF held, of as] aw by simp
  show ?thesis using gone never k1 by (auto simp: st)
qed

theorem second_request_orphans_first_witness:
  "well_formed asked \<and>
   pendingPermissionsRequests asked (sender_url dapp_port) = Some 0 \<and>
   awaiting asked 0 = Some (dapp_port, \<lparr>response_id = ''1'', result = Result (Arr [])\<rparr>) \<and>
   \<not> checkPermission asked (sender_url dapp_port) \<and>
   method (request reconnect_event) = ''eth_requestAccounts'' \<and>
   showDappConnectWindow wallet_env (dappConnect wallet_env) =
     Inr \<lparr>win_left = Some 1536, win_top = Some 0, win_width = Some 384\<rparr> \<and>
   pendingPermissionsRequests (task (Message wallet_env dapp_port reconnect_event) asked)
     (sender_url dapp_port) = Some 1 \<and>
   awaiting
     (run [Grant allow_record, Message wallet_env dapp_port sign_event]
        (task (Message wallet_env dapp_port reconnect_event) asked)) 0 =
     Some (dapp_port, \<lparr>response_id = ''1'', result = Result (Arr [])\<rparr>)"
proof -
  have p: "pendingPermissionsRequests asked (sender_url dapp_port) = Some 0"
    by (simp add: asked_state dapp_port_def)
  have a: "awaiting asked 0 =
      Some (dapp_port, \<lparr>response_id = ''1'', result = Result (Arr [])\<rparr>)"
    by (simp add: asked_state)
  have c: "\<not> checkPermission asked (sender_url dapp_port)"
    by (simp add: checkPermission_def asked_state)
  have m: "method (request reconnect_event) = ''eth_requestAccounts''"
    by (simp add: reconnect_event_def)
  have n: "promises asked = 1" by (simp add: asked_state)
  note T = second_request_orphans_first[OF well_formed_asked p a c m window_example refl]
  note T1 = T[THEN conjunct1]
  note T2 = T[THEN conjunct2, THEN conjunct2, THEN conjunct2, THEN conjunct2, THEN spec,
      of "[Grant allow_record, Message wallet_env dapp_port sign_event]"]
  show ?thesis
    using well_formed_asked p a c m window_example T1 T2 by (simp add: n)
qed

section \<open>The selectors\<close>

text \<open>
  C10. For every state, \<^verbatim>\<open>selectPendingPermissionRequests\<close> returns exactly the
  permission requests whose state is \<^verbatim>\<open>request\<close>, each as often and in the order in
  which \<^verbatim>\<open>Object.values\<close> lists them, and \<^verbatim>\<open>selectCurrentPendingPermission\<close> returns
  the first of them: the first listed request whose state is \<^verbatim>\<open>request\<close>. When no
  request has that state it returns no value.
\<close>

theorem selectors_of_pending_requests:
  "set (selectPendingPermissionRequests st) =
     {p \<in> set (selectPermissionRequests st). state p = ''request''} \<and>
   mset (selectPendingPermissionRequests st) =
     filter_mset (\<lambda>p. state p = ''request'') (mset (selectPermissionRequests st)) \<and>
   subseq (selectPendingPermissionRequests st) (selectPermissionRequests st) \<and>
   selectPermissionRequests st = map snd (permissionRequests (dappPermission st)) \<and>
   selectCurrentPendingPermission st =
     (if selectPendingPermissionRequests st = [] then None
      else Some (hd (selectPendingPermissionRequests st))) \<and>
   ((\<forall>p\<in>set (selectPermissionRequests st). state p \<noteq> ''request'') \<longrightarrow>
      selectCurrentPendingPermission st = None) \<and>
   (selectCurrentPendingPermission st = Some p \<longleftrightarrow>
      (\<exists>before after. selectPermissionRequests st = before @ p # after \<and>
         state p = ''request'' \<and> (\<forall>q\<in>set before. state q \<noteq> ''request'')))"
proof -
  let ?P = "\<lambda>p. state p = ''request''"
  let ?xs = "selectPermissionRequests st"
  have pend: "selectPendingPermissionRequests st = filter ?P ?xs"
    by (simp add: selectPendingPermissionRequests_def)
  have cur: "selectCurrentPendingPermission st =
      (case filter ?P ?xs of [] \<Rightarrow> None | p # _ \<Rightarrow> Some p)"
    by (simp add: selectCurrentPendingPermission_def pend)
  have 1: "set (selectPendingPermissionRequests st) = {p \<in> set ?xs. ?P p}"
    by (simp add: pend)
  have 2: "mset (selectPendingPermissionRequests st) = filter_mset ?P (mset ?xs)"
    by (simp add: pend)
  have 3: "subseq (selectPendingPermissionRequests st) ?xs"
    by (simp add: pend)
  have 4: "?xs = map snd (permissionRequests (dappPermission st))"
    by (simp add: selectPermissionRequests_def getProviderBridgeState_def)
  have 5: "selectCurrentPendingPermission st =
     (if selectPendingPermissionRequests st = [] then None
      else Some (hd (selectPendingPermissionRequests st)))"
    by (simp add: cur pend split: list.splits)
  have 6: "selectCurrentPendingPermission st = None" if "\<forall>p\<in>set ?xs. state p \<noteq> ''request''"
  proof -
    have "filter ?P ?xs = []" using that by (simp add: filter_empty_conv)
    then show ?thesis by (simp add: cur)
  qed
  have 7: "selectCurrentPendingPermission st = Some p \<longleftrightarrow>
      (\<exists>before after. ?xs = before @ p # after \<and> ?P p \<and> (\<forall>q\<in>set before. \<not> ?P q))"
  proof -
    have "selectCurrentPendingPermission st = Some p \<longleftrightarrow> (\<exists>ys. filter ?P ?xs = p # ys)"
      by (simp add: cur split: list.splits)
    also have "\<dots> \<longleftrightarrow> (\<exists>before after. ?xs = before @ p # after \<and> ?P p \<and>
        (\<forall>q\<in>set before. \<not> ?P q))"
      by (auto simp: filter_eq_Cons_iff)
    finally show ?thesis .
  qed
  show ?thesis using 1 2 3 4 5 6 7 by blast
qed

theorem selectors_of_pending_requests_witness:
  "selectPendingPermissionRequests example_root =
     [\<lparr>url = ''https://b.example'', favIconUrl = [], title = ''B'', state = ''request''\<rparr>,
      \<lparr>url = ''https://c.example'', favIconUrl = [], title = ''C'', state = ''request''\<rparr>] \<and>
   selectCurrentPendingPermission example_root =
     Some \<lparr>url = ''https://b.example'', favIconUrl = [], title = ''B'', state = ''request''\<rparr> \<and>
   selectPermissionRequests settled_root =
     [\<lparr>url = ''https://a.example'', favIconUrl = [], title = ''A'', state = ''allow''\<rparr>] \<and>
   selectCurrentPendingPermission settled_root = None"
proof -
  have v: "selectPermissionRequests settled_root =
     [\<lparr>url = ''https://a.example'', favIconUrl = [], title = ''A'', state = ''allow''\<rparr>]"
    by (simp add: selectPermissionRequests_def getProviderBridgeState_def settled_root_def)
  have h: "\<forall>p\<in>set (selectPermissionRequests settled_root). state p \<noteq> ''request''"
    by (simp add: v)
  have e: "selectPendingPermissionRequests example_root =
     [\<lparr>url = ''https://b.example'', favIconUrl = [], title = ''B'', state = ''request''\<rparr>,
      \<lparr>url = ''https://c.example'', favIconUrl = [], title = ''C'', state = ''request''\<rparr>]"
    by (simp add: selectPendingPermissionRequests_def selectPermissionRequests_def
        getProviderBridgeState_def example_root_def)
  note N = selectors_of_pending_requests[where st = settled_root, THEN conjunct2,
      THEN conjunct2, THEN conjunct2, THEN conjunct2, THEN conjunct2, THEN conjunct1,
      THEN mp, OF h]
  note F = selectors_of_pending_requests[where st = example_root, THEN conjunct2,
      THEN conjunct2, THEN conjunct2, THEN conjunct2, THEN conjunct1]
  show ?thesis using N F v by (simp add: e)
qed

end
